theory Spec2Isabelle
  imports Main "HOL-Library.Sublist"
begin

section \<open>Strings\<close>

text \<open>
  A JavaScript string is a sequence of UTF-16 code units. The model keeps the code units
  below 256 (ASCII and Latin-1), one \<^typ>\<open>char\<close> each; command-line arguments, version
  strings and path names of the release script are of that kind. The functions below are
  the string methods the script calls, each with the result ECMAScript gives it.
\<close>

definition startsWith :: "string \<Rightarrow> string \<Rightarrow> bool" where
  "startsWith s p = (take (length p) s = p)"

fun js_includes :: "string \<Rightarrow> string \<Rightarrow> bool" where
  "js_includes [] sub = (sub = [])"
| "js_includes (c # cs) sub = (startsWith (c # cs) sub \<or> js_includes cs sub)"

text \<open>
  \<open>s.split(sep)\<close> for a separator of one code unit: the segments between the occurrences
  of the separator, in order; never an empty array (\<open>''.split('-')\<close> is \<open>['']\<close>).
\<close>

fun js_split :: "string \<Rightarrow> char \<Rightarrow> string list" where
  "js_split [] sep = [[]]"
| "js_split (c # cs) sep =
     (if c = sep then [] # js_split cs sep
      else (case js_split cs sep of
              [] \<Rightarrow> [[c]]
            | seg # segs \<Rightarrow> (c # seg) # segs))"

text \<open>\<open>xs[i]\<close>: reading an array out of range gives \<open>undefined\<close>, here \<open>None\<close>.\<close>

fun at :: "'a list \<Rightarrow> nat \<Rightarrow> 'a option" where
  "at [] i = None"
| "at (x # xs) 0 = Some x"
| "at (x # xs) (Suc i) = at xs i"

text \<open>
  White space as \<open>trim\<close> and \<open>parseInt\<close> strip it: TAB, LF, VT, FF, CR, SP and NBSP are
  the white-space and line-terminator code units below 256.
\<close>

definition isWhiteSpace :: "char \<Rightarrow> bool" where
  "isWhiteSpace c = (of_char c \<in> {9, 10, 11, 12, 13, 32, 160 :: nat})"

definition js_trim :: "string \<Rightarrow> string" where
  "js_trim s = rev (dropWhile isWhiteSpace (rev (dropWhile isWhiteSpace s)))"

section \<open>Numbers\<close>

text \<open>
  \<open>parseInt\<close> returns a Number: NaN, an infinity, or a double that holds an integer.
  Negative zero is \<open>Num 0\<close>: the comparison \<open><\<close>, the only operation the script applies,
  does not tell the two zeros apart.
\<close>

datatype jsnum = NaN | Num int | PosInfinity | NegInfinity

function bitLength :: "int \<Rightarrow> nat" where
  "bitLength n = (if n \<le> 0 then 0 else Suc (bitLength (n div 2)))"
  by pat_completeness auto
termination
  by (relation "measure nat") auto

declare bitLength.simps [simp del]

text \<open>
  The double nearest to a non-negative integer, ties to even: exact below \<open>2^53\<close>
  (9007199254740992); above, the 53 leading bits are kept and the rest rounded; from
  \<open>2^1024\<close> on the result is infinite (\<open>None\<close>).
\<close>

definition roundToDouble :: "int \<Rightarrow> int option" where
  "roundToDouble m =
     (if m < 9007199254740992 then Some m
      else
        let e = bitLength m - 53;
            q = m div 2 ^ e;
            r = m mod 2 ^ e;
            h = 2 ^ (e - 1);
            q' = (if h < r \<or> (r = h \<and> odd q) then q + 1 else q);
            v = q' * 2 ^ e
        in if 2 ^ 1024 \<le> v then None else Some v)"

definition toNumber :: "bool \<Rightarrow> int \<Rightarrow> jsnum" where
  "toNumber negative m =
     (case roundToDouble m of
        None \<Rightarrow> (if negative then NegInfinity else PosInfinity)
      | Some v \<Rightarrow> Num (if negative then - v else v))"

definition isDigit :: "char \<Rightarrow> bool" where
  "isDigit c = (48 \<le> (of_char c :: nat) \<and> (of_char c :: nat) \<le> 57)"

fun digitsValue :: "int \<Rightarrow> string \<Rightarrow> int" where
  "digitsValue acc [] = acc"
| "digitsValue acc (c # cs) = digitsValue (10 * acc + (of_char c - 48)) cs"

text \<open>
  \<open>parseInt(s, 10)\<close>: skip leading white space, read one optional sign, then the longest
  run of decimal digits; no digit gives NaN; what follows the digits is ignored. With
  radix 10 no \<open>0x\<close> prefix is recognised.
\<close>

definition parseInt :: "string \<Rightarrow> jsnum" where
  "parseInt s =
     (let t = dropWhile isWhiteSpace s;
          negative = (case t of [] \<Rightarrow> False | c # _ \<Rightarrow> c = CHR ''-'');
          u = (case t of [] \<Rightarrow> [] | c # r \<Rightarrow> if c = CHR ''-'' \<or> c = CHR ''+'' then r else t);
          z = takeWhile isDigit u
      in if z = [] then NaN else toNumber negative (digitsValue 0 z))"

text \<open>
  \<open>parseInt(xs[0], 10)\<close>: an \<open>undefined\<close> argument is converted to the string
  \<open>undefined\<close>, which has no digit.
\<close>

definition parseIntOf :: "string option \<Rightarrow> jsnum" where
  "parseIntOf v = (case v of None \<Rightarrow> NaN | Some s \<Rightarrow> parseInt s)"

text \<open>\<open>a < b\<close> on Numbers: false as soon as one side is NaN.\<close>

fun js_lt :: "jsnum \<Rightarrow> jsnum \<Rightarrow> bool" where
  "js_lt NaN b = False"
| "js_lt a NaN = False"
| "js_lt (Num a) (Num b) = (a < b)"
| "js_lt (Num a) PosInfinity = True"
| "js_lt (Num a) NegInfinity = False"
| "js_lt PosInfinity b = False"
| "js_lt NegInfinity NegInfinity = False"
| "js_lt NegInfinity b = True"

section \<open>The process and its surroundings\<close>

text \<open>
  The working directory is a tree of files and directories; a directory lists its
  entries by name. \<open>files\<close> of the world are the entries of \<open>process.cwd()\<close>.
\<close>

datatype node = File string | Dir "(string \<times> node) list"

type_synonym entries = "(string \<times> node) list"

text \<open>
  An external command (\<open>execSync\<close>) is decided by the surroundings: it sees the command
  line and the working directory, and either exits non-zero (\<open>ExecFailed\<close>, \<open>execSync\<close>
  throws) or exits zero with its standard output; either way it may have changed files.
\<close>

datatype exec_result = ExecFailed entries | ExecOk string entries

type_synonym shell = "string \<Rightarrow> entries \<Rightarrow> exec_result"

text \<open>
  What the script can throw: the \<open>Error\<close> of line 113 (``Must use exact semver version for
  releases''), which the specification calls \<open>InvalidVersionSpecifier\<close>; the exception of
  \<open>execSync\<close> for a command that exits non-zero, with the command line; the rejection of a
  call of \<open>fs-extra\<close>, with the name it was about; and the TypeError of a method call on
  \<open>undefined\<close>.
\<close>

datatype error =
    InvalidVersionSpecifier
  | ExternalOperationFailure string
  | FileSystemFailure string
  | TypeError

text \<open>
  What a run leaves behind: the files, the lines printed by \<open>console.log\<close>, and the
  command lines handed to \<open>execSync\<close>, in order.
\<close>

record world =
  files :: entries
  console :: "string list"
  commands :: "string list"

definition logln :: "string \<Rightarrow> world \<Rightarrow> world" where
  "logln line w = w\<lparr>console := console w @ [line]\<rparr>"

definition execSync :: "shell \<Rightarrow> string \<Rightarrow> world \<Rightarrow> (error + string) \<times> world" where
  "execSync sh cmd w =
     (case sh cmd (files w) of
        ExecFailed fs \<Rightarrow>
          (Inl (ExternalOperationFailure cmd), w\<lparr>files := fs, commands := commands w @ [cmd]\<rparr>)
      | ExecOk out fs \<Rightarrow>
          (Inr out, w\<lparr>files := fs, commands := commands w @ [cmd]\<rparr>))"

section \<open>Command line\<close>

text \<open>
  The interface \<open>Options\<close>. \<open>from\<close> is optional; \<open>gitRemote\<close> is declared a string, and
  at run time both hold what \<open>arg.split('=')[1]\<close> yields, so both fields can carry
  \<open>undefined\<close> (\<open>None\<close>). The field \<open>from\<close> is named \<open>fromRef\<close> here.
\<close>

record Options =
  version :: string
  dryRun :: bool
  fromRef :: "string option"
  gitRemote :: "string option"

text \<open>The body of the loop of \<open>parseArgs\<close>, lines 24 to 33.\<close>

definition parseArg :: "Options \<Rightarrow> string \<Rightarrow> Options" where
  "parseArg options arg =
     (if arg = ''--dry-run'' then options\<lparr>dryRun := True\<rparr>
      else if startsWith arg ''--from='' then
        options\<lparr>fromRef := at (js_split arg CHR ''='') 1\<rparr>
      else if startsWith arg ''--git-remote='' then
        options\<lparr>gitRemote := at (js_split arg CHR ''='') 1\<rparr>
      else if \<not> startsWith arg ''--'' then options\<lparr>version := arg\<rparr>
      else options)"

fun parseArgsLoop :: "string list \<Rightarrow> Options \<Rightarrow> Options" where
  "parseArgsLoop [] options = options"
| "parseArgsLoop (arg # args) options = parseArgsLoop args (parseArg options arg)"

text \<open>\<open>argv\<close> is \<open>process.argv\<close>; its first two elements are the interpreter and the script.\<close>

definition parseArgs :: "string list \<Rightarrow> Options" where
  "parseArgs argv =
     parseArgsLoop (drop 2 argv)
       \<lparr>version = ''minor'', dryRun = False, fromRef = None, gitRemote = Some ''origin''\<rparr>"

definition isRelativeVersionKeyword :: "string \<Rightarrow> bool" where
  "isRelativeVersionKeyword ver =
     (ver \<in> set [''major'', ''minor'', ''patch'', ''premajor'', ''preminor'', ''prepatch'',
                   ''prerelease''])"

text \<open>A value used as a condition: \<open>undefined\<close> and the empty string are falsy.\<close>

definition truthy :: "string option \<Rightarrow> bool" where
  "truthy v = (case v of None \<Rightarrow> False | Some s \<Rightarrow> s \<noteq> [])"

text \<open>A value inside a template literal.\<close>

definition str :: "string option \<Rightarrow> string" where
  "str v = (case v of None \<Rightarrow> ''undefined'' | Some s \<Rightarrow> s)"

section \<open>Build directory\<close>

text \<open>
  \<open>path.join(dir, name)\<close> on POSIX, for a normalised directory path (what
  \<open>process.cwd()\<close> and \<open>path.join\<close> return: no trailing \<open>/\<close> but for the root) and a name
  of a directory listing.
\<close>

definition path_join :: "string \<Rightarrow> string \<Rightarrow> string" where
  "path_join dir name = (if dir = ''/'' then dir @ name else dir @ ''/'' @ name)"

text \<open>The node reached from a node by a list of names.\<close>

fun lookup :: "node \<Rightarrow> string list \<Rightarrow> node option" where
  "lookup t [] = Some t"
| "lookup (File c) (n # ns) = None"
| "lookup (Dir es) (n # ns) = (case map_of es n of None \<Rightarrow> None | Some t \<Rightarrow> lookup t ns)"

text \<open>Writing an entry of a directory: the entry of that name is replaced, or added.\<close>

fun put :: "string \<Rightarrow> node \<Rightarrow> entries \<Rightarrow> entries" where
  "put name t [] = [(name, t)]"
| "put name t (e # es) = (if fst e = name then (name, t) # es else e # put name t es)"

text \<open>
  The operations of \<open>fs-extra\<close> the script calls, on entries of the working directory.
  \<open>fs.remove\<close> deletes a file or a directory with its contents and accepts a missing one;
  \<open>fs.ensureDir\<close> creates a missing directory and fails on a file; \<open>fs.readdir\<close> lists the
  names of a directory and fails on anything else; \<open>fs.stat\<close> fails on a missing entry.
\<close>

definition fs_remove :: "string \<Rightarrow> entries \<Rightarrow> entries" where
  "fs_remove name fs = filter (\<lambda>e. fst e \<noteq> name) fs"

definition fs_ensureDir :: "string \<Rightarrow> entries \<Rightarrow> error + entries" where
  "fs_ensureDir name fs =
     (case map_of fs name of
        None \<Rightarrow> Inr (fs @ [(name, Dir [])])
      | Some (Dir es) \<Rightarrow> Inr fs
      | Some (File c) \<Rightarrow> Inl (FileSystemFailure name))"

definition fs_readdir :: "string \<Rightarrow> entries \<Rightarrow> error + string list" where
  "fs_readdir name fs =
     (case map_of fs name of
        Some (Dir es) \<Rightarrow> Inr (map fst es)
      | Some (File c) \<Rightarrow> Inl (FileSystemFailure name)
      | None \<Rightarrow> Inl (FileSystemFailure name))"

definition fs_stat :: "string \<Rightarrow> string \<Rightarrow> entries \<Rightarrow> error + node" where
  "fs_stat dir name fs =
     (case lookup (Dir fs) [dir, name] of
        None \<Rightarrow> Inl (FileSystemFailure name)
      | Some t \<Rightarrow> Inr t)"

text \<open>
  \<open>fs.copy(src, dest, {filter})\<close>: the filter is asked about the source path of every item,
  the top one first; a rejected item is skipped, and a rejected directory is skipped with
  all it contains; inside a directory the items are \<open>path.join(src, name)\<close>. A file is
  copied with its contents. \<open>copyTree\<close> is what arrives at a destination that does not
  exist, \<open>None\<close> when nothing arrives.
\<close>

fun copyTree :: "(string \<Rightarrow> bool) \<Rightarrow> string \<Rightarrow> node \<Rightarrow> node option"
  and copyEntries :: "(string \<Rightarrow> bool) \<Rightarrow> string \<Rightarrow> entries \<Rightarrow> entries" where
  "copyTree flt src (File c) = (if flt src then Some (File c) else None)"
| "copyTree flt src (Dir es) = (if flt src then Some (Dir (copyEntries flt src es)) else None)"
| "copyEntries flt src [] = []"
| "copyEntries flt src ((n, t) # es) =
     (case copyTree flt (path_join src n) t of
        None \<Rightarrow> copyEntries flt src es
      | Some t' \<Rightarrow> (n, t') # copyEntries flt src es)"

text \<open>
  The copy of a source node to the entry \<open>destName\<close> of the directory \<open>destDir\<close>, which
  \<open>fs.copy\<close> creates when it is missing. The script copies into a directory it has just
  emptied, under names of one listing, so the destination does not exist before.
\<close>

definition fs_copy ::
  "(string \<Rightarrow> bool) \<Rightarrow> string \<Rightarrow> node \<Rightarrow> string \<Rightarrow> string \<Rightarrow> entries \<Rightarrow> error + entries" where
  "fs_copy flt src t destDir destName fs =
     (case copyTree flt src t of
        None \<Rightarrow> Inr fs
      | Some t' \<Rightarrow>
          (case map_of fs destDir of
             Some (Dir es) \<Rightarrow> Inr (put destDir (Dir (put destName t' es)) fs)
           | Some (File c) \<Rightarrow> Inl (FileSystemFailure destDir)
           | None \<Rightarrow> Inr (fs @ [(destDir, Dir [(destName, t')])])))"

text \<open>The filter of line 70.\<close>

definition copyFilter :: "string \<Rightarrow> bool" where
  "copyFilter src = (\<not> js_includes src ''node_modules'' \<and> \<not> js_includes src ''__tests__'')"

text \<open>The loop of lines 61 to 74 over the names of the listing.\<close>

fun copyPackagesLoop :: "string \<Rightarrow> string list \<Rightarrow> entries \<Rightarrow> (error + unit) \<times> entries" where
  "copyPackagesLoop cwd [] fs = (Inr (), fs)"
| "copyPackagesLoop cwd (pkg # packageDirs) fs =
     (let srcDir = path_join (path_join cwd ''packages'') pkg in
      case fs_stat ''packages'' pkg fs of
        Inl e \<Rightarrow> (Inl e, fs)
      | Inr (File c) \<Rightarrow> copyPackagesLoop cwd packageDirs fs
      | Inr (Dir es) \<Rightarrow>
          (case fs_copy copyFilter srcDir (Dir es) ''build'' pkg fs of
             Inl e \<Rightarrow> (Inl e, fs)
           | Inr fs' \<Rightarrow> copyPackagesLoop cwd packageDirs fs'))"

definition copyPackagesToBuild :: "string \<Rightarrow> entries \<Rightarrow> (error + unit) \<times> entries" where
  "copyPackagesToBuild cwd fs =
     (let fs1 = fs_remove ''build'' fs in
      case fs_ensureDir ''build'' fs1 of
        Inl e \<Rightarrow> (Inl e, fs1)
      | Inr fs2 \<Rightarrow>
          (case fs_readdir ''packages'' fs2 of
             Inl e \<Rightarrow> (Inl e, fs2)
           | Inr packageDirs \<Rightarrow> copyPackagesLoop cwd packageDirs fs2))"

section \<open>Distribution tag\<close>

definition npmViewCmd :: string where
  "npmViewCmd = ''npm view @juristr/tusky-design version 2>/dev/null''"

text \<open>
  Lines 79 to 88 of \<open>determineDistTag\<close>: whether the function returns \<open>next\<close> there.
  \<open>version.split('-')[1]\<close> is read by index, and \<open>startsWith\<close> on \<open>undefined\<close> would be a
  TypeError.
\<close>

definition isPrerelease :: "string \<Rightarrow> error + bool" where
  "isPrerelease ver =
     (if js_includes ver ''-'' then
        (case at (js_split ver CHR ''-'') 1 of
           None \<Rightarrow> Inl TypeError
         | Some prerelease \<Rightarrow>
             Inr (startsWith prerelease ''beta'' \<or>
                  startsWith prerelease ''rc'' \<or>
                  startsWith prerelease ''alpha''))
      else Inr False)"

text \<open>
  Lines 90 to 108: the registry is asked for the published version; a failing query is
  caught and leads to the last line, as does an empty answer.
\<close>

definition olderMajorTag :: "shell \<Rightarrow> string \<Rightarrow> world \<Rightarrow> string \<times> world" where
  "olderMajorTag sh ver w =
     (case execSync sh npmViewCmd w of
        (Inl e, w') \<Rightarrow> (''latest'', w')
      | (Inr out, w') \<Rightarrow>
          (let latestVersion = js_trim out in
             if latestVersion \<noteq> [] then
               (let currentMajor = parseIntOf (at (js_split ver CHR ''.'') 0);
                    latestMajor = parseIntOf (at (js_split latestVersion CHR ''.'') 0)
                in if js_lt currentMajor latestMajor then (''previous'', w')
                   else (''latest'', w'))
             else (''latest'', w')))"

definition determineDistTag :: "shell \<Rightarrow> string \<Rightarrow> world \<Rightarrow> (error + string) \<times> world" where
  "determineDistTag sh ver w =
     (case isPrerelease ver of
        Inl e \<Rightarrow> (Inl e, w)
      | Inr True \<Rightarrow> (Inr ''next'', w)
      | Inr False \<Rightarrow> (case olderMajorTag sh ver w of (tag, w') \<Rightarrow> (Inr tag, w')))"

section \<open>The two paths\<close>

text \<open>
  How a run ends: \<open>process.exit\<close> with a status, the end of the script, or an exception
  that nothing catches (the process then ends with a non-zero status).
\<close>

datatype outcome = Exited nat | Completed | Threw error

definition bumpCmd :: "string \<Rightarrow> string" where
  "bumpCmd ver = ''pnpm nx release version --specifier '' @ ver"

definition changelogCmd :: "Options \<Rightarrow> string" where
  "changelogCmd options =
     (''pnpm nx release changelog '' @ version options @ '' --interactive workspace'')
     @ (if truthy (fromRef options) then '' --from '' @ str (fromRef options) else [])
     @ (if truthy (gitRemote options) then '' --git-remote '' @ str (gitRemote options) else [])"

definition publishCmd :: "string \<Rightarrow> string" where
  "publishCmd distTag =
     ''pnpm nx release publish --registry=https://registry.npmjs.org --tag='' @ distTag"

text \<open>\<open>await copyPackagesToBuild()\<close> in the world: only the files change.\<close>

definition copyStep :: "string \<Rightarrow> world \<Rightarrow> (error + unit) \<times> world" where
  "copyStep cwd w =
     (case copyPackagesToBuild cwd (files w) of (r, fs) \<Rightarrow> (r, w\<lparr>files := fs\<rparr>))"

definition createGitHubRelease :: "shell \<Rightarrow> string \<Rightarrow> Options \<Rightarrow> world \<Rightarrow> outcome \<times> world" where
  "createGitHubRelease sh cwd options w =
     (if isRelativeVersionKeyword (version options) then (Threw InvalidVersionSpecifier, w)
      else
        case copyStep cwd (logln ''Copying packages to build directory...'' w) of
          (Inl e, w1) \<Rightarrow> (Threw e, w1)
        | (Inr u, w1) \<Rightarrow>
            (case execSync sh (bumpCmd (version options))
                    (logln (''Bumping versions to '' @ version options @ ''...'') w1) of
               (Inl e, w2) \<Rightarrow> (Threw e, w2)
             | (Inr out, w2) \<Rightarrow>
                 (case execSync sh (changelogCmd options)
                         (logln ''Creating changelog and GitHub Release...'' w2) of
                    (Inl e, w3) \<Rightarrow> (Threw e, w3)
                  | (Inr out', w3) \<Rightarrow>
                      (Exited 0,
                       logln (CHR 0x0A #
                         ''GitHub Release created! Check GitHub Actions for publish status.'')
                         w3))))"

definition publishToNpm :: "shell \<Rightarrow> string \<Rightarrow> Options \<Rightarrow> world \<Rightarrow> outcome \<times> world" where
  "publishToNpm sh cwd options w =
     (case copyStep cwd (logln ''Copying packages to build directory...'' w) of
        (Inl e, w1) \<Rightarrow> (Threw e, w1)
      | (Inr u, w1) \<Rightarrow>
          (case execSync sh (bumpCmd (version options))
                  (logln (''Bumping versions to '' @ version options @ ''...'') w1) of
             (Inl e, w2) \<Rightarrow> (Threw e, w2)
           | (Inr out, w2) \<Rightarrow>
               (case determineDistTag sh (version options) w2 of
                  (Inl e, w3) \<Rightarrow> (Threw e, w3)
                | (Inr distTag, w3) \<Rightarrow>
                    (let w4 = logln (''Publishing with tag: '' @ distTag) w3 in
                     if dryRun options then
                       (Exited 0, logln (''[DRY RUN] Would execute: '' @ publishCmd distTag) w4)
                     else
                       (case execSync sh (publishCmd distTag) w4 of
                          (Inl e, w5) \<Rightarrow> (Threw e, w5)
                        | (Inr out', w5) \<Rightarrow> (Completed, w5))))))"

text \<open>
  The script's last lines. \<open>ci\<close> is \<open>process.env.CI\<close>, \<open>None\<close> when the variable is not set;
  \<open>cwd\<close> is \<open>process.cwd()\<close>.
\<close>

definition main :: "shell \<Rightarrow> string \<Rightarrow> string option \<Rightarrow> string list \<Rightarrow> world \<Rightarrow> outcome \<times> world" where
  "main sh cwd ci argv w =
     (let options = parseArgs argv in
      if \<not> truthy ci then createGitHubRelease sh cwd options w
      else publishToNpm sh cwd options w)"

section \<open>Observations\<close>

text \<open>
  What the statements about the build directory speak of: what an item of the tree is,
  a file with its contents or a directory; and what the loop of \<open>copyPackagesToBuild\<close>
  leaves in the build directory for a list of names of the packages directory.
\<close>

datatype item = RegularFile string | Directory

fun item_of :: "node \<Rightarrow> item" where
  "item_of (File c) = RegularFile c"
| "item_of (Dir es) = Directory"

fun staged :: "string \<Rightarrow> entries \<Rightarrow> string list \<Rightarrow> entries" where
  "staged cwd pkgs [] = []"
| "staged cwd pkgs (n # ns) =
     (case map_of pkgs n of
        Some (Dir es) \<Rightarrow>
          (case copyTree copyFilter (path_join (path_join cwd ''packages'') n) (Dir es) of
             Some t \<Rightarrow> [(n, t)]
           | None \<Rightarrow> [])
      | Some (File c) \<Rightarrow> []
      | None \<Rightarrow> [])
     @ staged cwd pkgs ns"

section \<open>The specification's words\<close>

text \<open>
  The specification's notion of a qualifying prerelease label, in its own words, to be
  compared with lines 79 to 88: the version contains a \<open>-\<close>, and the text after the first
  \<open>-\<close> begins with \<open>beta\<close>, \<open>rc\<close> or \<open>alpha\<close>.
\<close>

definition spec_hasPrereleaseLabel :: "string \<Rightarrow> bool" where
  "spec_hasPrereleaseLabel ver =
     (CHR ''-'' \<in> set ver \<and>
      (let label = tl (dropWhile (\<lambda>c. c \<noteq> CHR ''-'') ver)
       in startsWith label ''beta'' \<or> startsWith label ''rc'' \<or> startsWith label ''alpha''))"

section \<open>Facts about the string functions\<close>

lemma startsWith_prefix: "startsWith s p \<longleftrightarrow> prefix p s"
  by (auto simp: startsWith_def prefix_def) (metis append_eq_conv_conj)

lemma includes_char: "js_includes s [c] \<longleftrightarrow> c \<in> set s"
  by (induction s) (auto simp: startsWith_def)

lemma js_split_unfold:
  "js_split s sep =
     takeWhile (\<lambda>c. c \<noteq> sep) s #
       (case dropWhile (\<lambda>c. c \<noteq> sep) s of [] \<Rightarrow> [] | _ # r \<Rightarrow> js_split r sep)"
  by (induction s) (auto split: list.splits)

lemma js_split_first: "at (js_split s sep) 0 = Some (takeWhile (\<lambda>c. c \<noteq> sep) s)"
  by (subst js_split_unfold) simp

lemma js_split_append:
  "sep \<notin> set pre \<Longrightarrow> js_split (pre @ sep # rest) sep = pre # js_split rest sep"
  by (induction pre) auto

lemma js_split_second:
  "sep \<notin> set pre \<Longrightarrow>
     at (js_split (pre @ sep # rest) sep) (Suc 0) = Some (takeWhile (\<lambda>c. c \<noteq> sep) rest)"
  by (simp add: js_split_append js_split_first)

lemma startsWith_takeWhile:
  "\<forall>c \<in> set p. P c \<Longrightarrow> startsWith (takeWhile P s) p \<longleftrightarrow> startsWith s p"
proof (induction p arbitrary: s)
  case Nil
  then show ?case by (simp add: startsWith_def)
next
  case (Cons a p)
  show ?case
  proof (cases s)
    case Nil
    then show ?thesis by (simp add: startsWith_def)
  next
    case (Cons b t)
    with Cons.prems Cons.IH [of t] show ?thesis
      by (auto simp: startsWith_def)
  qed
qed

lemma split_at_first:
  "c \<in> set s \<Longrightarrow> \<exists>pre rest. s = pre @ c # rest \<and> c \<notin> set pre"
  by (meson split_list_first)

section \<open>Facts about the command line\<close>

lemma parseArgsLoop_snoc:
  "parseArgsLoop (args @ [arg]) options = parseArg (parseArgsLoop args options) arg"
  by (induction args arbitrary: options) simp_all

lemma startsWith_split: "startsWith s p \<Longrightarrow> s = p @ drop (length p) s"
  by (metis append_take_drop_id startsWith_def)

lemma flag_value:
  assumes "startsWith arg (name @ ''='')" and "CHR ''='' \<notin> set name"
  shows "at (js_split arg CHR ''='') (Suc 0) =
           Some (takeWhile (\<lambda>c. c \<noteq> CHR ''='') (drop (length (name @ ''='')) arg))"
proof -
  define rest where "rest = drop (length (name @ ''='')) arg"
  from startsWith_split [OF assms(1)]
  have "arg = name @ CHR ''='' # rest"
    by (simp add: rest_def)
  then have "at (js_split arg CHR ''='') (Suc 0) = Some (takeWhile (\<lambda>c. c \<noteq> CHR ''='') rest)"
    using assms(2) by (simp add: js_split_second)
  then show ?thesis
    by (simp only: rest_def)
qed

lemma from_value:
  "startsWith arg ''--from='' \<Longrightarrow>
     at (js_split arg CHR ''='') (Suc 0) =
       Some (takeWhile (\<lambda>c. c \<noteq> CHR ''='') (drop (length ''--from='') arg))"
  using flag_value [of arg "''--from''"] by simp

lemma git_remote_value:
  "startsWith arg ''--git-remote='' \<Longrightarrow>
     at (js_split arg CHR ''='') (Suc 0) =
       Some (takeWhile (\<lambda>c. c \<noteq> CHR ''='') (drop (length ''--git-remote='') arg))"
  using flag_value [of arg "''--git-remote''"] by simp

lemma startsWith_shorter:
  "startsWith s (p @ q) \<Longrightarrow> startsWith s p"
  by (metis append.assoc append_eq_conv_conj startsWith_def startsWith_split)

lemma from_dashes: "startsWith arg ''--from='' \<Longrightarrow> startsWith arg ''--''"
  using startsWith_shorter [of arg "''--''" "''from=''"] by simp

lemma git_remote_dashes: "startsWith arg ''--git-remote='' \<Longrightarrow> startsWith arg ''--''"
  using startsWith_shorter [of arg "''--''" "''git-remote=''"] by simp

lemma from_not_git_remote: "startsWith arg ''--from='' \<Longrightarrow> \<not> startsWith arg ''--git-remote=''"
proof
  assume "startsWith arg ''--from=''" and "startsWith arg ''--git-remote=''"
  then have "startsWith arg ''--f''" and "startsWith arg ''--g''"
    using startsWith_shorter [of arg "''--f''" "''rom=''"]
      startsWith_shorter [of arg "''--g''" "''it-remote=''"] by simp_all
  then show False
    by (simp add: startsWith_def)
qed

lemma dry_run_flag:
  "startsWith ''--dry-run'' ''--''"
  "\<not> startsWith ''--dry-run'' ''--from=''"
  "\<not> startsWith ''--dry-run'' ''--git-remote=''"
  by (simp_all add: startsWith_def)

lemma version_loop:
  "version (parseArgsLoop args options) =
     (if filter (\<lambda>a. \<not> startsWith a ''--'') args = [] then version options
      else last (filter (\<lambda>a. \<not> startsWith a ''--'') args))"
proof (induction args rule: rev_induct)
  case Nil
  then show ?case by simp
next
  case (snoc arg args)
  then show ?case
    by (auto simp: parseArgsLoop_snoc parseArg_def dry_run_flag from_dashes git_remote_dashes
       )
qed

lemma dryRun_loop:
  "dryRun (parseArgsLoop args options) = (dryRun options \<or> ''--dry-run'' \<in> set args)"
proof (induction args rule: rev_induct)
  case Nil
  then show ?case by simp
next
  case (snoc arg args)
  then show ?case
    by (auto simp: parseArgsLoop_snoc parseArg_def)
qed

lemma fromRef_loop:
  "fromRef (parseArgsLoop args options) =
     (if filter (\<lambda>a. startsWith a ''--from='') args = [] then fromRef options
      else Some (takeWhile (\<lambda>c. c \<noteq> CHR ''='')
             (drop (length ''--from='') (last (filter (\<lambda>a. startsWith a ''--from='') args)))))"
proof (induction args rule: rev_induct)
  case Nil
  then show ?case by simp
next
  case (snoc arg args)
  show ?case
  proof (cases "startsWith arg ''--from=''")
    case True
    then have "arg \<noteq> ''--dry-run''"
      using dry_run_flag(2) by auto
    with True show ?thesis
      by (simp add: parseArgsLoop_snoc parseArg_def from_value)
  next
    case False
    with snoc show ?thesis
      by (simp add: parseArgsLoop_snoc parseArg_def)
  qed
qed

lemma gitRemote_loop:
  "gitRemote (parseArgsLoop args options) =
     (if filter (\<lambda>a. startsWith a ''--git-remote='') args = [] then gitRemote options
      else Some (takeWhile (\<lambda>c. c \<noteq> CHR ''='')
             (drop (length ''--git-remote='') (last (filter (\<lambda>a. startsWith a ''--git-remote='') args)))))"
proof (induction args rule: rev_induct)
  case Nil
  then show ?case by simp
next
  case (snoc arg args)
  show ?case
  proof (cases "startsWith arg ''--git-remote=''")
    case True
    then have "arg \<noteq> ''--dry-run''" and "\<not> startsWith arg ''--from=''"
      using dry_run_flag(3) from_not_git_remote by auto
    with True show ?thesis
      by (simp add: parseArgsLoop_snoc parseArg_def git_remote_value)
  next
    case False
    with snoc show ?thesis
      by (simp add: parseArgsLoop_snoc parseArg_def)
  qed
qed

section \<open>Facts about the distribution tag\<close>

lemmas number_eval = parseInt_def isWhiteSpace_def isDigit_def toNumber_def roundToDouble_def

lemma toNumber_not_NaN: "toNumber negative m \<noteq> NaN"
  by (simp add: toNumber_def split: option.splits)

text \<open>
  \<open>parseInt\<close> gives NaN exactly when no decimal digit stands at the start of the string,
  after the leading white space and one sign; a string that begins with a digit parses to
  a number, whatever follows the digits.
\<close>

lemma parseInt_NaN_iff:
  "parseInt s = NaN \<longleftrightarrow>
     (let t = dropWhile isWhiteSpace s;
          u = (case t of [] \<Rightarrow> [] | c # r \<Rightarrow> if c = CHR ''-'' \<or> c = CHR ''+'' then r else t)
      in takeWhile isDigit u = [])"
  by (simp add: parseInt_def Let_def toNumber_not_NaN)

lemma dropWhile_first:
  "c \<notin> set pre \<Longrightarrow> dropWhile (\<lambda>x. x \<noteq> c) (pre @ c # rest) = c # rest"
  by (induction pre) auto

text \<open>
  The code reads the label as the segment between the first and the second \<open>-\<close>; the three
  prefixes contain no \<open>-\<close>, so the test agrees with the specification's, and the read by
  index never fails.
\<close>

lemma isPrerelease_spec: "isPrerelease v = Inr (spec_hasPrereleaseLabel v)"
proof (cases "CHR ''-'' \<in> set v")
  case False
  then show ?thesis
    by (simp add: isPrerelease_def spec_hasPrereleaseLabel_def includes_char)
next
  case True
  from split_at_first [OF True]
  obtain pre rest where v: "v = pre @ CHR ''-'' # rest" and pre: "CHR ''-'' \<notin> set pre"
    by (elim exE conjE)
  let ?seg = "takeWhile (\<lambda>c. c \<noteq> CHR ''-'') rest"
  have label: "tl (dropWhile (\<lambda>c. c \<noteq> CHR ''-'') v) = rest"
    using v pre by (simp add: dropWhile_first)
  have second: "at (js_split v CHR ''-'') (Suc 0) = Some ?seg"
    using v pre by (simp add: js_split_second)
  have "isPrerelease v =
          Inr (startsWith ?seg ''beta'' \<or> startsWith ?seg ''rc'' \<or> startsWith ?seg ''alpha'')"
    using True by (simp add: isPrerelease_def includes_char second)
  also have "\<dots> = Inr (startsWith rest ''beta'' \<or> startsWith rest ''rc'' \<or> startsWith rest ''alpha'')"
    by (simp add: startsWith_takeWhile)
  also have "\<dots> = Inr (spec_hasPrereleaseLabel v)"
    unfolding spec_hasPrereleaseLabel_def label Let_def using True by simp
  finally show ?thesis .
qed

lemma determineDistTag_label:
  "spec_hasPrereleaseLabel v \<Longrightarrow> determineDistTag sh v w = (Inr ''next'', w)"
  by (simp add: determineDistTag_def isPrerelease_spec)

lemma determineDistTag_no_label:
  "\<not> spec_hasPrereleaseLabel v \<Longrightarrow>
     determineDistTag sh v w =
       (Inr (fst (olderMajorTag sh v w)), snd (olderMajorTag sh v w))"
  by (simp add: determineDistTag_def isPrerelease_spec split: prod.splits)

lemma olderMajorTag_failed:
  "sh npmViewCmd (files w) = ExecFailed fs \<Longrightarrow>
     olderMajorTag sh v w =
       (''latest'', w\<lparr>files := fs, commands := commands w @ [npmViewCmd]\<rparr>)"
  by (simp add: olderMajorTag_def execSync_def)

lemma olderMajorTag_ok:
  "sh npmViewCmd (files w) = ExecOk out fs \<Longrightarrow>
     olderMajorTag sh v w =
       (if js_trim out \<noteq> [] \<and>
           js_lt (parseInt (takeWhile (\<lambda>c. c \<noteq> CHR ''.'') v))
                 (parseInt (takeWhile (\<lambda>c. c \<noteq> CHR ''.'') (js_trim out)))
        then ''previous'' else ''latest'',
        w\<lparr>files := fs, commands := commands w @ [npmViewCmd]\<rparr>)"
  by (simp add: olderMajorTag_def execSync_def js_split_first parseIntOf_def Let_def)

lemma determineDistTag_total: "\<exists>tag. fst (determineDistTag sh v w) = Inr tag"
  by (cases "spec_hasPrereleaseLabel v")
     (simp_all add: determineDistTag_label determineDistTag_no_label)

section \<open>Facts about the build directory\<close>

lemma js_includes_sublist: "js_includes s sub \<longleftrightarrow> sublist sub s"
proof (induction s)
  case Nil
  then show ?case by simp
next
  case (Cons c cs)
  then show ?case
    by (simp add: startsWith_prefix sublist_Cons_right)
qed

lemma path_join_prefix: "prefix dir (path_join dir name)"
  by (simp add: path_join_def)

lemma js_includes_path_join:
  "js_includes dir sub \<Longrightarrow> js_includes (path_join dir name) sub"
  by (metis js_includes_sublist path_join_prefix prefix_imp_sublist sublist_order.order_trans)

lemma copyFilter_parent: "copyFilter (path_join dir name) \<Longrightarrow> copyFilter dir"
  using js_includes_path_join by (auto simp: copyFilter_def)

lemma copyFilter_ancestor: "copyFilter (foldl path_join dir names) \<Longrightarrow> copyFilter dir"
  by (induction names arbitrary: dir) (auto dest: copyFilter_parent)

lemma copyFilter_sublist:
  "copyFilter p \<longleftrightarrow> \<not> sublist ''node_modules'' p \<and> \<not> sublist ''__tests__'' p"
  by (simp add: copyFilter_def js_includes_sublist)

lemma copyTree_None: "copyTree flt src t = None \<longleftrightarrow> \<not> flt src"
  by (cases t) simp_all

lemma map_of_copyEntries:
  "map_of (copyEntries flt src es) n =
     (case map_of es n of None \<Rightarrow> None | Some t \<Rightarrow> copyTree flt (path_join src n) t)"
proof (induction es)
  case Nil
  then show ?case by simp
next
  case (Cons e es)
  obtain m t where e: "e = (m, t)" by (cases e)
  show ?case
  proof (cases "copyTree flt (path_join src m) t")
    case None
    then have "\<not> flt (path_join src m)"
      by (simp add: copyTree_None)
    then have "m = n \<Longrightarrow> copyTree flt (path_join src n) u = None" for u
      by (simp add: copyTree_None)
    with None Cons e show ?thesis
      by (auto split: option.splits)
  next
    case (Some t')
    with Cons e show ?thesis
      by (auto split: option.splits)
  qed
qed

lemma copyTree_item: "copyTree flt src t = Some t' \<Longrightarrow> item_of t' = item_of t"
  by (cases t) (auto split: if_splits)

lemma lookup_copyTree:
  assumes "\<And>dir name. flt (path_join dir name) \<Longrightarrow> flt dir"
    and "copyTree flt src t = Some t'"
  shows "map_option item_of (lookup t' names) =
           (if flt (foldl path_join src names) then map_option item_of (lookup t names) else None)"
  using assms(2)
proof (induction names arbitrary: src t t')
  case Nil
  then have "flt src"
    using copyTree_None [of flt src t] by auto
  with Nil show ?case
    by (simp add: copyTree_item)
next
  case (Cons n names)
  have up: "flt (foldl path_join d ns) \<Longrightarrow> flt d" for d ns
    by (induction ns arbitrary: d) (auto dest: assms(1))
  show ?case
  proof (cases t)
    case (File c)
    with Cons.prems show ?thesis
      by (auto split: if_splits)
  next
    case (Dir es)
    with Cons.prems have t': "t' = Dir (copyEntries flt src es)"
      by (auto split: if_splits)
    show ?thesis
    proof (cases "map_of es n")
      case None
      with Dir t' show ?thesis
        by (simp add: map_of_copyEntries)
    next
      case (Some u)
      show ?thesis
      proof (cases "copyTree flt (path_join src n) u")
        case None
        then have "\<not> flt (foldl path_join (path_join src n) names)"
          using up copyTree_None by blast
        with None Some Dir t' show ?thesis
          by (simp add: map_of_copyEntries)
      next
        case (Some u')
        from Cons.IH [OF Some] \<open>map_of es n = Some u\<close> Some Dir t' show ?thesis
          by (simp add: map_of_copyEntries)
      qed
    qed
  qed
qed

lemma map_of_put: "map_of (put k v es) = (map_of es)(k \<mapsto> v)"
  by (induction es) auto

lemma put_put: "put k v (put k u es) = put k v es"
  by (induction es) auto

lemma put_fresh: "k \<notin> fst ` set es \<Longrightarrow> put k v es = es @ [(k, v)]"
  by (induction es) auto

lemma put_last: "k \<notin> fst ` set es \<Longrightarrow> put k v (es @ [(k, u)]) = es @ [(k, v)]"
  by (induction es) auto

lemma fs_stat_package:
  "map_of fs ''packages'' = Some (Dir pkgs) \<Longrightarrow>
     fs_stat ''packages'' pkg fs =
       (case map_of pkgs pkg of None \<Rightarrow> Inl (FileSystemFailure pkg) | Some t \<Rightarrow> Inr t)"
  by (simp add: fs_stat_def split: option.splits)

lemma staged_keys: "fst ` set (staged cwd pkgs names) \<subseteq> set names"
  by (induction names) (auto split: option.splits node.splits)

lemma copyPackagesLoop_result:
  assumes "map_of fs ''packages'' = Some (Dir pkgs)"
    and "map_of fs ''build'' = Some (Dir b)"
    and "set names \<subseteq> fst ` set pkgs"
    and "distinct names"
    and "set names \<inter> fst ` set b = {}"
  shows "copyPackagesLoop cwd names fs =
           (Inr (), put ''build'' (Dir (b @ staged cwd pkgs names)) fs)"
  using assms
proof (induction names arbitrary: fs b)
  case Nil
  have "put ''build'' (Dir b) fs = fs"
    using Nil(2) by (induction fs) auto
  then show ?case by simp
next
  case (Cons n names)
  from Cons.prems(3) obtain t where t: "map_of pkgs n = Some t"
    by (metis insert_subset list.simps(15) map_of_eq_None_iff not_Some_eq)
  have stat: "fs_stat ''packages'' n fs = Inr t"
    using Cons.prems(1) t by (simp add: fs_stat_package)
  have rest: "set names \<subseteq> fst ` set pkgs" "distinct names" "set names \<inter> fst ` set b = {}"
    using Cons.prems by auto
  let ?src = "path_join (path_join cwd ''packages'') n"
  show ?case
  proof (cases t)
    case (File c)
    with stat t Cons.IH [OF Cons.prems(1,2) rest] show ?thesis
      by simp
  next
    case (Dir es)
    show ?thesis
    proof (cases "copyTree copyFilter ?src (Dir es)")
      case None
      then have "fs_copy copyFilter ?src (Dir es) ''build'' n fs = Inr fs"
        by (simp add: fs_copy_def)
      with None Dir stat t Cons.IH [OF Cons.prems(1,2) rest] show ?thesis
        by (simp add: Let_def)
    next
      case (Some t')
      let ?b = "b @ [(n, t')]"
      let ?fs = "put ''build'' (Dir ?b) fs"
      have fresh: "n \<notin> fst ` set b"
        using Cons.prems(5) by auto
      have copy: "fs_copy copyFilter ?src (Dir es) ''build'' n fs = Inr ?fs"
        using Some Cons.prems(2) fresh by (simp add: fs_copy_def put_fresh)
      have 1: "map_of ?fs ''packages'' = Some (Dir pkgs)"
        using Cons.prems(1) by (simp add: map_of_put)
      have 2: "map_of ?fs ''build'' = Some (Dir ?b)"
        by (simp add: map_of_put)
      have 3: "set names \<inter> fst ` set ?b = {}"
        using rest(3) Cons.prems(4) by auto
      from Cons.IH [OF 1 2 rest(1,2) 3]
      have "copyPackagesLoop cwd names ?fs =
              (Inr (), put ''build'' (Dir (?b @ staged cwd pkgs names)) fs)"
        by (simp add: put_put)
      with Some Dir stat t copy show ?thesis
        by (simp add: Let_def)
    qed
  qed
qed

lemma map_of_fs_remove:
  "map_of (fs_remove name fs) k = (if k = name then None else map_of fs k)"
  by (induction fs) (auto simp: fs_remove_def)

lemma fs_remove_keys: "name \<notin> fst ` set (fs_remove name fs)"
  by (auto simp: fs_remove_def)

lemma copyPackagesToBuild_result:
  assumes "map_of fs ''packages'' = Some (Dir pkgs)" and "distinct (map fst pkgs)"
  shows "copyPackagesToBuild cwd fs =
           (Inr (), fs_remove ''build'' fs @ [(''build'', Dir (staged cwd pkgs (map fst pkgs)))])"
proof -
  let ?fs1 = "fs_remove ''build'' fs"
  let ?fs2 = "?fs1 @ [(''build'', Dir [])]"
  have none: "map_of ?fs1 ''build'' = None"
    by (simp add: map_of_fs_remove)
  then have ensure: "fs_ensureDir ''build'' ?fs1 = Inr ?fs2"
    by (simp add: fs_ensureDir_def)
  have pk1: "map_of ?fs1 ''packages'' = Some (Dir pkgs)"
    using assms(1) by (simp add: map_of_fs_remove)
  then have pk: "map_of ?fs2 ''packages'' = Some (Dir pkgs)"
    by simp
  then have listing: "fs_readdir ''packages'' ?fs2 = Inr (map fst pkgs)"
    by (simp add: fs_readdir_def)
  have bd: "map_of ?fs2 ''build'' = Some (Dir [])"
    using none by (simp add: map_add_def)
  have "copyPackagesLoop cwd (map fst pkgs) ?fs2 =
          (Inr (), put ''build'' (Dir ([] @ staged cwd pkgs (map fst pkgs))) ?fs2)"
    using pk bd assms(2) by (intro copyPackagesLoop_result) simp_all
  then have "copyPackagesLoop cwd (map fst pkgs) ?fs2 =
          (Inr (), ?fs1 @ [(''build'', Dir (staged cwd pkgs (map fst pkgs)))])"
    by (simp add: put_last fs_remove_keys)
  then show ?thesis
    using ensure listing by (simp add: copyPackagesToBuild_def Let_def)
qed

lemma map_of_staged:
  "map_of (staged cwd pkgs names) pkg =
     (if pkg \<in> set names then
        (case map_of pkgs pkg of
           Some (Dir es) \<Rightarrow> copyTree copyFilter (path_join (path_join cwd ''packages'') pkg) (Dir es)
         | Some (File c) \<Rightarrow> None
         | None \<Rightarrow> None)
      else None)"
  by (induction names) (auto split: option.splits node.splits)

lemma lookup_staged:
  "map_option item_of (lookup (Dir (staged cwd pkgs (map fst pkgs))) (pkg # names)) =
     (case map_of pkgs pkg of
        Some (Dir es) \<Rightarrow>
          if copyFilter (foldl path_join (path_join cwd ''packages'') (pkg # names))
          then map_option item_of (lookup (Dir es) names) else None
      | Some (File c) \<Rightarrow> None
      | None \<Rightarrow> None)"
proof (cases "map_of pkgs pkg")
  case None
  then show ?thesis
    by (simp add: map_of_staged)
next
  case (Some t)
  then have mem: "pkg \<in> set (map fst pkgs)"
    by (metis domI dom_map_of_conv_image_fst set_map)
  let ?src = "path_join (path_join cwd ''packages'') pkg"
  show ?thesis
  proof (cases t)
    case (File c)
    with Some mem show ?thesis
      by (simp add: map_of_staged)
  next
    case (Dir es)
    show ?thesis
    proof (cases "copyTree copyFilter ?src (Dir es)")
      case None
      have "\<not> copyFilter ?src"
        using copyTree_None [of copyFilter ?src "Dir es"] None by simp
      then have "\<not> copyFilter (foldl path_join ?src names)"
        using copyFilter_ancestor by blast
      with None Some Dir mem show ?thesis
        by (simp add: map_of_staged)
    next
      case copied: (Some t')
      have "map_option item_of (lookup t' names) =
              (if copyFilter (foldl path_join ?src names)
               then map_option item_of (lookup (Dir es) names) else None)"
        using copyFilter_parent copied by (rule lookup_copyTree)
      with copied Some Dir mem show ?thesis
        by (simp add: map_of_staged)
    qed
  qed
qed

lemma fs_copy_error: "fs_copy flt src t d n fs = Inl e \<Longrightarrow> \<exists>p. e = FileSystemFailure p"
  by (auto simp: fs_copy_def split: option.splits node.splits)

lemma copyPackagesLoop_error:
  "copyPackagesLoop cwd names fs = (Inl e, fs') \<Longrightarrow> \<exists>p. e = FileSystemFailure p"
proof (induction names arbitrary: fs)
  case Nil
  then show ?case by simp
next
  case (Cons n names)
  then show ?case
    by (auto simp: Let_def fs_stat_def dest: fs_copy_error split: sum.splits node.splits option.splits)
qed

lemma copyPackagesToBuild_error:
  "copyPackagesToBuild cwd fs = (Inl e, fs') \<Longrightarrow> \<exists>p. e = FileSystemFailure p"
  by (auto simp: copyPackagesToBuild_def Let_def fs_ensureDir_def fs_readdir_def
      dest: copyPackagesLoop_error split: sum.splits option.splits node.splits)

section \<open>Facts about the two paths\<close>

lemma truthy_iff: "truthy ci \<longleftrightarrow> ci \<noteq> None \<and> ci \<noteq> Some []"
  by (cases ci) (simp_all add: truthy_def)

lemma main_publish: "truthy ci \<Longrightarrow> main sh cwd ci argv w = publishToNpm sh cwd (parseArgs argv) w"
  by (simp add: main_def)

lemma copyStep_result:
  "copyStep cwd w = (r, w') \<Longrightarrow>
     (\<exists>fs. copyPackagesToBuild cwd (files w) = (r, fs) \<and> w' = w\<lparr>files := fs\<rparr>)"
  by (auto simp: copyStep_def split: prod.splits)

lemma execSync_result:
  "execSync sh cmd w = (r, w') \<Longrightarrow>
     (\<exists>fs. w' = w\<lparr>files := fs, commands := commands w @ [cmd]\<rparr> \<and>
        ((r = Inl (ExternalOperationFailure cmd) \<and> sh cmd (files w) = ExecFailed fs) \<or>
         (\<exists>out. r = Inr out \<and> sh cmd (files w) = ExecOk out fs)))"
  by (auto simp: execSync_def split: exec_result.splits)

lemma olderMajorTag_world:
  "olderMajorTag sh v w = (tag, w') \<Longrightarrow>
     console w' = console w \<and> commands w' = commands w @ [npmViewCmd] \<and>
     (tag = ''previous'' \<or> tag = ''latest'')"
  by (cases "sh npmViewCmd (files w)")
     (auto simp: olderMajorTag_ok olderMajorTag_failed split: if_splits)

lemma determineDistTag_result:
  "determineDistTag sh v w = (r, w') \<Longrightarrow>
     (\<exists>tag. r = Inr tag \<and> (tag = ''next'' \<or> tag = ''previous'' \<or> tag = ''latest'')) \<and>
     console w' = console w \<and>
     commands w' = commands w @ (if spec_hasPrereleaseLabel v then [] else [npmViewCmd])"
proof (cases "spec_hasPrereleaseLabel v")
  case True
  assume "determineDistTag sh v w = (r, w')"
  with True show ?thesis
    by (auto simp: determineDistTag_label)
next
  case False
  assume r: "determineDistTag sh v w = (r, w')"
  obtain tag w'' where o: "olderMajorTag sh v w = (tag, w'')"
    by (cases "olderMajorTag sh v w")
  from olderMajorTag_world [OF o] r o False show ?thesis
    by (auto simp: determineDistTag_no_label)
qed

lemma publishCmd_other:
  "publishCmd tag \<noteq> bumpCmd v" "publishCmd tag \<noteq> npmViewCmd"
  by (simp_all add: publishCmd_def bumpCmd_def npmViewCmd_def)

lemma determineDistTag_files:
  "files w = files w' \<Longrightarrow> fst (determineDistTag sh v w) = fst (determineDistTag sh v w')"
  by (cases "spec_hasPrereleaseLabel v"; cases "sh npmViewCmd (files w)")
     (simp_all add: determineDistTag_label determineDistTag_no_label olderMajorTag_ok
        olderMajorTag_failed)

lemma keyword_not_numeric:
  assumes "v \<in> {''major'', ''minor'', ''patch'', ''premajor'', ''preminor'', ''prepatch'',
             ''prerelease''}"
  shows "\<not> spec_hasPrereleaseLabel v"
    and "parseInt (takeWhile (\<lambda>c. c \<noteq> CHR ''.'') v) = NaN"
  using assms by (auto simp: spec_hasPrereleaseLabel_def number_eval)

lemma determineDistTag_NaN:
  assumes "\<not> spec_hasPrereleaseLabel v"
    and "parseInt (takeWhile (\<lambda>c. c \<noteq> CHR ''.'') v) = NaN"
  shows "fst (determineDistTag sh v w) = Inr ''latest''"
  using assms
  by (cases "sh npmViewCmd (files w)")
     (simp_all add: determineDistTag_no_label olderMajorTag_ok olderMajorTag_failed)

lemma publishToNpm_copy_failed:
  assumes "copyPackagesToBuild cwd (files w) = (Inl e, fs1)"
  shows "publishToNpm sh cwd options w =
           (Threw e, w\<lparr>console := console w @ [''Copying packages to build directory...''],
                       files := fs1\<rparr>)"
  using assms by (simp add: publishToNpm_def copyStep_def logln_def)

lemma publishToNpm_bump_failed:
  assumes "copyPackagesToBuild cwd (files w) = (Inr (), fs1)"
    and "sh (bumpCmd (version options)) fs1 = ExecFailed fs2"
  shows "publishToNpm sh cwd options w =
           (Threw (ExternalOperationFailure (bumpCmd (version options))),
            w\<lparr>console := console w @ [''Copying packages to build directory...'',
                ''Bumping versions to '' @ version options @ ''...''],
              files := fs2,
              commands := commands w @ [bumpCmd (version options)]\<rparr>)"
  using assms by (simp add: publishToNpm_def copyStep_def logln_def execSync_def)

lemma publishToNpm_bumped:
  assumes copy: "copyPackagesToBuild cwd (files w) = (Inr (), fs1)"
    and bump: "sh (bumpCmd (version options)) fs1 = ExecOk out fs2"
  shows "\<exists>tag. fst (determineDistTag sh (version options) (w\<lparr>files := fs2\<rparr>)) = Inr tag \<and>
           (tag = ''next'' \<or> tag = ''previous'' \<or> tag = ''latest'') \<and>
           (if dryRun options then
              fst (publishToNpm sh cwd options w) = Exited 0 \<and>
              console (snd (publishToNpm sh cwd options w)) =
                console w @ [''Copying packages to build directory...'',
                  ''Bumping versions to '' @ version options @ ''...'',
                  ''Publishing with tag: '' @ tag,
                  ''[DRY RUN] Would execute: '' @ publishCmd tag] \<and>
              commands (snd (publishToNpm sh cwd options w)) =
                commands w @ bumpCmd (version options) #
                  (if spec_hasPrereleaseLabel (version options) then [] else [npmViewCmd])
            else
              (fst (publishToNpm sh cwd options w) = Completed \<or>
               fst (publishToNpm sh cwd options w) =
                 Threw (ExternalOperationFailure (publishCmd tag))) \<and>
              commands (snd (publishToNpm sh cwd options w)) =
                commands w @ bumpCmd (version options) #
                  (if spec_hasPrereleaseLabel (version options) then [] else [npmViewCmd]) @
                  [publishCmd tag])"
proof -
  let ?v = "version options"
  let ?w1 = "logln ''Copying packages to build directory...'' w"
  let ?w2 = "logln (''Bumping versions to '' @ ?v @ ''...'') (?w1\<lparr>files := fs1\<rparr>)"
  let ?w3 = "?w2\<lparr>files := fs2, commands := commands ?w2 @ [bumpCmd ?v]\<rparr>"
  have c: "copyStep cwd ?w1 = (Inr (), ?w1\<lparr>files := fs1\<rparr>)"
    using copy by (simp add: copyStep_def logln_def)
  have b: "execSync sh (bumpCmd ?v) ?w2 = (Inr out, ?w3)"
    using bump by (simp add: execSync_def logln_def)
  obtain r w4 where d: "determineDistTag sh ?v ?w3 = (r, w4)"
    by (cases "determineDistTag sh ?v ?w3")
  from determineDistTag_result [OF d] obtain tag where
    r: "r = Inr tag" and tag: "tag = ''next'' \<or> tag = ''previous'' \<or> tag = ''latest''"
    and con: "console w4 = console ?w3"
    and com: "commands w4 = commands ?w3 @
      (if spec_hasPrereleaseLabel ?v then [] else [npmViewCmd])"
    by blast
  have "fst (determineDistTag sh ?v (w\<lparr>files := fs2\<rparr>)) = fst (determineDistTag sh ?v ?w3)"
    by (rule determineDistTag_files) (simp add: logln_def)
  then have t: "fst (determineDistTag sh ?v (w\<lparr>files := fs2\<rparr>)) = Inr tag"
    using d r by simp
  let ?w5 = "logln (''Publishing with tag: '' @ tag) w4"
  show ?thesis
  proof (cases "dryRun options")
    case True
    have "publishToNpm sh cwd options w =
            (Exited 0, logln (''[DRY RUN] Would execute: '' @ publishCmd tag) ?w5)"
      unfolding publishToNpm_def
      by (simp only: c b d r prod.case sum.case Let_def True if_True)
    then show ?thesis
      using True t tag con com by (auto simp: logln_def)
  next
    case False
    obtain r' w6 where e: "execSync sh (publishCmd tag) ?w5 = (r', w6)"
      by (cases "execSync sh (publishCmd tag) ?w5")
    have p: "publishToNpm sh cwd options w =
            (case r' of Inl e \<Rightarrow> (Threw e, w6) | Inr out' \<Rightarrow> (Completed, w6))"
      unfolding publishToNpm_def
      by (simp only: c b d r e prod.case sum.case Let_def False if_False split: sum.splits)
    from execSync_result [OF e] have
      "commands w6 = commands ?w5 @ [publishCmd tag]"
      and "r' = Inl (ExternalOperationFailure (publishCmd tag)) \<or> (\<exists>out. r' = Inr out)"
      by auto
    then show ?thesis
      using False t tag con com p by (auto simp: logln_def)
  qed
qed

lemma publishToNpm_dry_run_commands:
  assumes "dryRun options"
  shows "\<exists>cs. commands (snd (publishToNpm sh cwd options w)) = commands w @ cs \<and>
              set cs \<subseteq> {bumpCmd (version options), npmViewCmd}"
proof -
  obtain r fs1 where copy: "copyPackagesToBuild cwd (files w) = (r, fs1)"
    by (cases "copyPackagesToBuild cwd (files w)")
  show ?thesis
  proof (cases r)
    case (Inl e)
    with copy show ?thesis
      by (simp add: publishToNpm_copy_failed)
  next
    case (Inr u)
    with copy have copy': "copyPackagesToBuild cwd (files w) = (Inr (), fs1)"
      by simp
    show ?thesis
    proof (cases "sh (bumpCmd (version options)) fs1")
      case (ExecFailed fs2)
      from publishToNpm_bump_failed [where sh = sh, OF copy' ExecFailed] show ?thesis
        by simp
    next
      case (ExecOk out fs2)
      from publishToNpm_bumped [where sh = sh, OF copy' ExecOk] assms
      have "commands (snd (publishToNpm sh cwd options w)) =
              commands w @ bumpCmd (version options) #
                (if spec_hasPrereleaseLabel (version options) then [] else [npmViewCmd])"
        by auto
      then show ?thesis
        by auto
    qed
  qed
qed

lemma publishToNpm_not_rejected:
  "fst (publishToNpm sh cwd options w) \<noteq> Threw InvalidVersionSpecifier"
proof -
  obtain r fs1 where copy: "copyPackagesToBuild cwd (files w) = (r, fs1)"
    by (cases "copyPackagesToBuild cwd (files w)")
  show ?thesis
  proof (cases r)
    case (Inl e)
    with copy copyPackagesToBuild_error [of cwd "files w" e fs1] show ?thesis
      by (auto simp: publishToNpm_copy_failed)
  next
    case (Inr u)
    with copy have copy': "copyPackagesToBuild cwd (files w) = (Inr (), fs1)"
      by simp
    show ?thesis
    proof (cases "sh (bumpCmd (version options)) fs1")
      case (ExecFailed fs2)
      from publishToNpm_bump_failed [where sh = sh, OF copy' ExecFailed] show ?thesis
        by simp
    next
      case (ExecOk out fs2)
      from publishToNpm_bumped [where sh = sh, OF copy' ExecOk] show ?thesis
        by (auto split: if_splits)
    qed
  qed
qed

lemmas run_eval =
  main_def truthy_def parseArgs_def parseArg_def startsWith_def publishToNpm_def copyStep_def
  copyPackagesToBuild_def fs_remove_def fs_ensureDir_def fs_readdir_def fs_stat_def fs_copy_def
  logln_def execSync_def bumpCmd_def publishCmd_def npmViewCmd_def determineDistTag_def
  isPrerelease_def olderMajorTag_def js_trim_def parseIntOf_def Let_def

section \<open>Claims about the distribution tag\<close>

text \<open>
  C1. A version that contains a \<open>-\<close> and whose prerelease label, the text after the first
  \<open>-\<close>, begins with \<open>beta\<close>, \<open>rc\<close> or \<open>alpha\<close> is given the tag \<open>next\<close>, whatever the
  registry would answer; the world is returned unchanged, so no command was run and the
  registry was not asked.
\<close>

theorem determineDistTag_prerelease_next:
  assumes "spec_hasPrereleaseLabel v"
  shows "determineDistTag sh v w = (Inr ''next'', w)"
  using assms by (simp add: determineDistTag_def isPrerelease_spec)

theorem determineDistTag_prerelease_next_witness:
  "spec_hasPrereleaseLabel ''2.0.0-beta.1'' \<and>
   determineDistTag (\<lambda>cmd fs. ExecOk ''3.0.0'' fs) ''2.0.0-beta.1''
     \<lparr>files = [], console = [], commands = []\<rparr>
   = (Inr ''next'', \<lparr>files = [], console = [], commands = []\<rparr>)"
proof -
  have h: "spec_hasPrereleaseLabel ''2.0.0-beta.1''"
    by (simp add: spec_hasPrereleaseLabel_def startsWith_def)
  show ?thesis
    using h determineDistTag_prerelease_next [OF h] by simp
qed

text \<open>
  C2. A version without a qualifying prerelease label gets \<open>previous\<close> when the registry
  query succeeds with a non-empty version and the major number parsed from the candidate's
  leading segment is strictly less than the one parsed from the published version's.
\<close>

theorem determineDistTag_older_major_previous:
  assumes "\<not> spec_hasPrereleaseLabel v"
    and "sh npmViewCmd (files w) = ExecOk out fs"
    and "js_trim out \<noteq> []"
    and "parseInt (takeWhile (\<lambda>c. c \<noteq> CHR ''.'') v) = Num a"
    and "parseInt (takeWhile (\<lambda>c. c \<noteq> CHR ''.'') (js_trim out)) = Num b"
    and "a < b"
  shows "determineDistTag sh v w =
           (Inr ''previous'', w\<lparr>files := fs, commands := commands w @ [npmViewCmd]\<rparr>)"
  using assms by (simp add: determineDistTag_no_label olderMajorTag_ok)

theorem determineDistTag_older_major_previous_witness:
  "\<not> spec_hasPrereleaseLabel ''1.5.0'' \<and>
   js_trim (''2.0.0'' @ [CHR 0x0A]) = ''2.0.0'' \<and>
   parseInt ''1'' = Num 1 \<and> parseInt ''2'' = Num 2 \<and>
   determineDistTag (\<lambda>cmd fs. ExecOk (''2.0.0'' @ [CHR 0x0A]) fs) ''1.5.0''
       \<lparr>files = [], console = [], commands = []\<rparr>
     = (Inr ''previous'', \<lparr>files = [], console = [], commands = [npmViewCmd]\<rparr>)"
proof -
  let ?sh = "\<lambda>cmd fs. ExecOk (''2.0.0'' @ [CHR 0x0A]) fs :: exec_result"
  let ?w = "\<lparr>files = [], console = [], commands = []\<rparr>"
  have h1: "\<not> spec_hasPrereleaseLabel ''1.5.0''"
    by (simp add: spec_hasPrereleaseLabel_def)
  have h2: "?sh npmViewCmd (files ?w) = ExecOk (''2.0.0'' @ [CHR 0x0A]) []"
    by simp
  have t: "js_trim (''2.0.0'' @ [CHR 0x0A]) = ''2.0.0''"
    by (simp add: js_trim_def isWhiteSpace_def)
  have h3: "js_trim (''2.0.0'' @ [CHR 0x0A]) \<noteq> []"
    by (simp add: js_trim_def isWhiteSpace_def)
  have p1: "parseInt ''1'' = Num 1" and p2: "parseInt ''2'' = Num 2"
    by (simp_all add: number_eval)
  have h4: "parseInt (takeWhile (\<lambda>c. c \<noteq> CHR ''.'') ''1.5.0'') = Num 1"
    by (simp add: p1)
  have "takeWhile (\<lambda>c. c \<noteq> CHR ''.'') (js_trim (''2.0.0'' @ [CHR 0x0A])) = ''2''"
    by (simp add: js_trim_def isWhiteSpace_def)
  then have h5: "parseInt (takeWhile (\<lambda>c. c \<noteq> CHR ''.'') (js_trim (''2.0.0'' @ [CHR 0x0A]))) = Num 2"
    by (simp only: p2)
  have c: "determineDistTag ?sh ''1.5.0'' ?w =
      (Inr ''previous'', ?w\<lparr>files := [], commands := commands ?w @ [npmViewCmd]\<rparr>)"
    by (rule determineDistTag_older_major_previous [where sh = ?sh and w = ?w and a = 1 and b = 2, OF h1 h2 h3 h4 h5]) simp
  show ?thesis
    using c h1 t p1 p2 by simp
qed

text \<open>
  C3. A version without a qualifying prerelease label gets \<open>latest\<close> when the registry
  query fails, and when it succeeds and the candidate's major number is greater than or
  equal to the published one; in particular the failing query is not an error of
  \<open>determineDistTag\<close>.
\<close>

theorem determineDistTag_latest:
  assumes "\<not> spec_hasPrereleaseLabel v"
    and "(\<exists>fs. sh npmViewCmd (files w) = ExecFailed fs) \<or>
         (\<exists>out fs a b. sh npmViewCmd (files w) = ExecOk out fs \<and>
            parseInt (takeWhile (\<lambda>c. c \<noteq> CHR ''.'') v) = Num a \<and>
            parseInt (takeWhile (\<lambda>c. c \<noteq> CHR ''.'') (js_trim out)) = Num b \<and> b \<le> a)"
  shows "fst (determineDistTag sh v w) = Inr ''latest''"
  using assms by (auto simp: determineDistTag_no_label olderMajorTag_ok olderMajorTag_failed)

theorem determineDistTag_latest_witness:
  "\<not> spec_hasPrereleaseLabel ''1.2.0'' \<and>
   fst (determineDistTag (\<lambda>cmd fs. ExecFailed fs) ''1.2.0''
          \<lparr>files = [], console = [], commands = []\<rparr>) = Inr ''latest''"
proof -
  let ?sh = "\<lambda>cmd fs. ExecFailed fs :: exec_result"
  let ?w = "\<lparr>files = [], console = [], commands = []\<rparr>"
  have h1: "\<not> spec_hasPrereleaseLabel ''1.2.0''"
    by (simp add: spec_hasPrereleaseLabel_def)
  show ?thesis
    using determineDistTag_latest [of "''1.2.0''" ?sh ?w] h1 by simp
qed

text \<open>
  C10, as amended. A version with no \<open>-\<close> whose leading dot-separated segment parses to
  NaN, that is, has no decimal digit at its start after optional white space and one sign,
  such as a bump keyword, gets \<open>latest\<close> whatever the registry answers: a comparison with
  NaN is false.
\<close>

theorem determineDistTag_non_numeric_latest:
  assumes "CHR ''-'' \<notin> set v"
    and "parseInt (takeWhile (\<lambda>c. c \<noteq> CHR ''.'') v) = NaN"
  shows "fst (determineDistTag sh v w) = Inr ''latest''"
proof -
  have "\<not> spec_hasPrereleaseLabel v"
    using assms(1) by (simp add: spec_hasPrereleaseLabel_def)
  then show ?thesis
    using assms(2)
    by (cases "sh npmViewCmd (files w)")
       (simp_all add: determineDistTag_no_label olderMajorTag_ok olderMajorTag_failed)
qed

theorem determineDistTag_non_numeric_latest_witness:
  "CHR ''-'' \<notin> set ''minor'' \<and> parseInt ''minor'' = NaN \<and>
   fst (determineDistTag (\<lambda>cmd fs. ExecOk (''2.0.0'' @ [CHR 0x0A]) fs) ''minor''
          \<lparr>files = [], console = [], commands = []\<rparr>) = Inr ''latest''"
proof -
  have h1: "CHR ''-'' \<notin> set ''minor''"
    by simp
  have p: "parseInt ''minor'' = NaN"
    by (simp add: number_eval)
  have h2: "parseInt (takeWhile (\<lambda>c. c \<noteq> CHR ''.'') ''minor'') = NaN"
    by (simp add: p)
  from determineDistTag_non_numeric_latest [OF h1 h2] h1 p show ?thesis
    by simp
qed

text \<open>
  C10 as stated fails for a leading segment that is not a number but begins with a digit:
  \<open>parseInt\<close> reads the digits and ignores the rest, so \<open>1abc.0.0\<close> has the major 1 and,
  with \<open>2.0.0\<close> published, gets \<open>previous\<close>.
\<close>

theorem non_numeric_segment_previous:
  "CHR ''-'' \<notin> set ''1abc.0.0'' \<and>
   takeWhile (\<lambda>c. c \<noteq> CHR ''.'') ''1abc.0.0'' = ''1abc'' \<and>
   determineDistTag (\<lambda>cmd fs. ExecOk (''2.0.0'' @ [CHR 0x0A]) fs) ''1abc.0.0''
     \<lparr>files = [], console = [], commands = []\<rparr>
   = (Inr ''previous'',
      \<lparr>files = [], console = [],
       commands = [''npm view @juristr/tusky-design version 2>/dev/null'']\<rparr>)"
  by (simp add: run_eval number_eval)

section \<open>Claims about the command line\<close>

text \<open>
  C8. For every argument list, \<open>parseArgs\<close> produces options whose \<open>version\<close> is \<open>minor\<close> when
  no positional argument (one that does not start with \<open>--\<close>) is given, and the last
  positional argument otherwise; whose \<open>dryRun\<close> is false unless the flag \<open>--dry-run\<close> is
  given; whose \<open>gitRemote\<close> is \<open>origin\<close> unless an argument \<open>--git-remote=name\<close> is given, and
  then comes from the last such argument; and whose \<open>from\<close> is absent unless an argument
  \<open>--from=ref\<close> is given. The value taken from a flag is its text between the first \<open>=\<close> and
  the next \<open>=\<close>, the whole of it when it contains no \<open>=\<close>.
\<close>

theorem parseArgs_options:
  "(let args = drop 2 argv in
     version (parseArgs argv) =
       (if filter (\<lambda>a. \<not> startsWith a ''--'') args = [] then ''minor''
      else last (filter (\<lambda>a. \<not> startsWith a ''--'') args)) \<and>
     dryRun (parseArgs argv) = (''--dry-run'' \<in> set args) \<and>
     gitRemote (parseArgs argv) =
       (if filter (\<lambda>a. startsWith a ''--git-remote='') args = [] then Some ''origin''
      else Some (takeWhile (\<lambda>c. c \<noteq> CHR ''='')
             (drop (length ''--git-remote='') (last (filter (\<lambda>a. startsWith a ''--git-remote='') args))))) \<and>
     fromRef (parseArgs argv) =
       (if filter (\<lambda>a. startsWith a ''--from='') args = [] then None
      else Some (takeWhile (\<lambda>c. c \<noteq> CHR ''='')
             (drop (length ''--from='') (last (filter (\<lambda>a. startsWith a ''--from='') args))))))"
  by (simp add: Let_def parseArgs_def version_loop dryRun_loop gitRemote_loop fromRef_loop)

theorem parseArgs_options_witness:
  "parseArgs [''node'', ''release.ts'', ''--from=v1.0.0'', ''1.2.0'', ''--dry-run'',
              ''--git-remote=upstream'', ''--verbose'']
   = \<lparr>version = ''1.2.0'', dryRun = True, fromRef = Some ''v1.0.0'',
       gitRemote = Some ''upstream''\<rparr>"
  using parseArgs_options [of "[''node'', ''release.ts'', ''--from=v1.0.0'', ''1.2.0'',
    ''--dry-run'', ''--git-remote=upstream'', ''--verbose'']"]
  by (simp add: Let_def startsWith_def)

section \<open>Claims about the build directory\<close>

text \<open>
  C7. When the packages root is a directory (with no name twice in its listing),
  \<open>copyPackagesToBuild\<close> succeeds and leaves every other entry of the working directory as
  it was; the build directory is replaced by a new one, whatever it held before, and an
  item is found in it under a package name and a list of names exactly when the package is
  a directory of the packages root, the item is found there under those names, and its
  source path contains neither \<open>node_modules\<close> nor \<open>__tests__\<close>; it is then a directory
  where the source is one, and a file with the same contents where the source is a file.
\<close>

theorem copyPackagesToBuild_filtered_copy:
  assumes "map_of fs ''packages'' = Some (Dir pkgs)" and "distinct (map fst pkgs)"
  shows "\<exists>b. copyPackagesToBuild cwd fs =
                (Inr (), filter (\<lambda>e. fst e \<noteq> ''build'') fs @ [(''build'', Dir b)]) \<and>
             (\<forall>pkg names.
                map_option item_of (lookup (Dir b) (pkg # names)) =
                  (case map_of pkgs pkg of
                     Some (Dir es) \<Rightarrow>
                       let src = foldl path_join (path_join cwd ''packages'') (pkg # names)
                       in if sublist ''node_modules'' src \<or> sublist ''__tests__'' src then None
                          else map_option item_of (lookup (Dir es) names)
                   | Some (File c) \<Rightarrow> None
                   | None \<Rightarrow> None))"
proof -
  let ?b = "staged cwd pkgs (map fst pkgs)"
  have "copyPackagesToBuild cwd fs =
          (Inr (), filter (\<lambda>e. fst e \<noteq> ''build'') fs @ [(''build'', Dir ?b)])"
    using copyPackagesToBuild_result [OF assms] by (simp add: fs_remove_def)
  moreover have "map_option item_of (lookup (Dir ?b) (pkg # names)) =
      (case map_of pkgs pkg of
         Some (Dir es) \<Rightarrow>
           let src = foldl path_join (path_join cwd ''packages'') (pkg # names)
           in if sublist ''node_modules'' src \<or> sublist ''__tests__'' src then None
              else map_option item_of (lookup (Dir es) names)
       | Some (File c) \<Rightarrow> None
       | None \<Rightarrow> None)" for pkg names
    unfolding lookup_staged Let_def
    by (simp add: copyFilter_sublist split: option.splits node.splits)
  ultimately show ?thesis
    by blast
qed

theorem copyPackagesToBuild_filtered_copy_witness:
  "map_of [(''build'', Dir [(''stale'', File ''old'')]),
           (''packages'',
            Dir [(''ui'', Dir [(''package.json'', File ''{}''),
                               (''node_modules'', Dir [(''dep.js'', File ''d'')]),
                               (''src'', Dir [(''Rating.tsx'', File ''star''),
                                              (''__tests__'', Dir [(''Rating.test.tsx'', File ''t'')])])]),
                 (''notes.txt'', File ''n'')])] ''packages''
     = Some (Dir [(''ui'', Dir [(''package.json'', File ''{}''),
                               (''node_modules'', Dir [(''dep.js'', File ''d'')]),
                               (''src'', Dir [(''Rating.tsx'', File ''star''),
                                              (''__tests__'', Dir [(''Rating.test.tsx'', File ''t'')])])]),
                 (''notes.txt'', File ''n'')]) \<and>
   distinct (map fst [(''ui'', Dir [(''package.json'', File ''{}''),
                               (''node_modules'', Dir [(''dep.js'', File ''d'')]),
                               (''src'', Dir [(''Rating.tsx'', File ''star''),
                                              (''__tests__'', Dir [(''Rating.test.tsx'', File ''t'')])])]),
                 (''notes.txt'', File ''n'')]) \<and>
   copyPackagesToBuild ''/repo''
     [(''build'', Dir [(''stale'', File ''old'')]),
      (''packages'',
            Dir [(''ui'', Dir [(''package.json'', File ''{}''),
                               (''node_modules'', Dir [(''dep.js'', File ''d'')]),
                               (''src'', Dir [(''Rating.tsx'', File ''star''),
                                              (''__tests__'', Dir [(''Rating.test.tsx'', File ''t'')])])]),
                 (''notes.txt'', File ''n'')])]
   = (Inr (),
      [(''packages'',
            Dir [(''ui'', Dir [(''package.json'', File ''{}''),
                               (''node_modules'', Dir [(''dep.js'', File ''d'')]),
                               (''src'', Dir [(''Rating.tsx'', File ''star''),
                                              (''__tests__'', Dir [(''Rating.test.tsx'', File ''t'')])])]),
                 (''notes.txt'', File ''n'')]),
       (''build'', Dir [(''ui'', Dir [(''package.json'', File ''{}''),
                                      (''src'', Dir [(''Rating.tsx'', File ''star'')])])])])"
  using copyPackagesToBuild_filtered_copy [of
     "[(''build'', Dir [(''stale'', File ''old'')]),
      (''packages'',
            Dir [(''ui'', Dir [(''package.json'', File ''{}''),
                               (''node_modules'', Dir [(''dep.js'', File ''d'')]),
                               (''src'', Dir [(''Rating.tsx'', File ''star''),
                                              (''__tests__'', Dir [(''Rating.test.tsx'', File ''t'')])])]),
                 (''notes.txt'', File ''n'')])]"
     "[(''ui'', Dir [(''package.json'', File ''{}''),
                               (''node_modules'', Dir [(''dep.js'', File ''d'')]),
                               (''src'', Dir [(''Rating.tsx'', File ''star''),
                                              (''__tests__'', Dir [(''Rating.test.tsx'', File ''t'')])])]),
                 (''notes.txt'', File ''n'')]" "''/repo''"]
  by (simp add: copyPackagesToBuild_def fs_remove_def fs_ensureDir_def fs_readdir_def
      fs_stat_def fs_copy_def copyFilter_def startsWith_def path_join_def Let_def)

section \<open>Claims about the two paths\<close>

text \<open>
  C4. On the staging path (\<open>CI\<close> unset or empty), a version that is one of the seven
  relative keywords makes the run end with \<open>InvalidVersionSpecifier\<close> in an unchanged
  world: no file is touched, nothing is printed and no command is run.
\<close>

theorem staging_rejects_keyword:
  assumes "\<not> truthy ci"
    and "version (parseArgs argv) \<in> {''major'', ''minor'', ''patch'', ''premajor'', ''preminor'',
           ''prepatch'', ''prerelease''}"
  shows "main sh cwd ci argv w = (Threw InvalidVersionSpecifier, w)"
proof -
  have "isRelativeVersionKeyword (version (parseArgs argv))"
    using assms(2) unfolding isRelativeVersionKeyword_def by simp
  then show ?thesis
    using assms(1) by (simp add: main_def createGitHubRelease_def)
qed

theorem staging_rejects_keyword_witness:
  "\<not> truthy None \<and>
   version (parseArgs [''node'', ''release.ts'']) = ''minor'' \<and>
   main (\<lambda>cmd fs. ExecOk [] fs) ''/repo'' None [''node'', ''release.ts'']
     \<lparr>files = [(''build'', Dir [(''old'', File ''x'')]), (''packages'', Dir [])],
      console = [], commands = []\<rparr>
   = (Threw InvalidVersionSpecifier,
      \<lparr>files = [(''build'', Dir [(''old'', File ''x'')]), (''packages'', Dir [])],
       console = [], commands = []\<rparr>)"
proof -
  have h1: "\<not> truthy None"
    by (simp add: truthy_def)
  have v: "version (parseArgs [''node'', ''release.ts'']) = ''minor''"
    by (simp add: parseArgs_def)
  have h2: "version (parseArgs [''node'', ''release.ts'']) \<in> {''major'', ''minor'', ''patch'',
      ''premajor'', ''preminor'', ''prepatch'', ''prerelease''}"
    by (simp add: v)
  show ?thesis
    using h1 v staging_rejects_keyword [OF h1 h2] by simp
qed

text \<open>
  C6, as amended. The run is the staging path when the environment variable \<open>CI\<close> is
  unset or empty, and the publish path when it is set to a non-empty string; there is no
  third behaviour.
\<close>

theorem main_branches_on_marker:
  "main sh cwd ci argv w =
     (if ci = None \<or> ci = Some [] then createGitHubRelease sh cwd (parseArgs argv) w
      else publishToNpm sh cwd (parseArgs argv) w)"
  by (auto simp: main_def truthy_iff)

text \<open>
  C6 as stated fails for a marker that is present and empty: with \<open>CI\<close> set to the empty
  string and a literal version the run is the staging path, which bumps the version,
  creates the changelog and the hosted release and exits; nothing is published.
\<close>

theorem empty_marker_runs_staging:
  "main (\<lambda>cmd fs. ExecOk [] fs) ''/repo'' (Some []) [''node'', ''release.ts'', ''1.2.0'']
      \<lparr>files = [(''packages'', Dir [])], console = [], commands = []\<rparr>
   = (Exited 0,
      \<lparr>files = [(''packages'', Dir []), (''build'', Dir [])],
       console = [''Copying packages to build directory...'', ''Bumping versions to 1.2.0...'',
         ''Creating changelog and GitHub Release...'',
         CHR 0x0A # ''GitHub Release created! Check GitHub Actions for publish status.''],
       commands = [''pnpm nx release version --specifier 1.2.0'',
         ''pnpm nx release changelog 1.2.0 --interactive workspace --git-remote origin'']\<rparr>)"
  by (simp add: main_def truthy_def parseArgs_def parseArg_def startsWith_def
      createGitHubRelease_def isRelativeVersionKeyword_def copyStep_def copyPackagesToBuild_def
      fs_remove_def fs_ensureDir_def fs_readdir_def logln_def execSync_def bumpCmd_def
      changelogCmd_def str_def)

text \<open>
  C5, as amended. On the publish path with \<open>dryRun\<close> set, no publish command is run,
  whatever happens; and when the staging copy and the version bump succeed, the tag is
  computed, the publish command that would have run is printed after the progress lines,
  the process exits with status 0, and the commands run are the version bump and, for a
  version without a qualifying prerelease label, the registry query.
\<close>

theorem dry_run_prints_publish_command:
  assumes "truthy ci" and "dryRun (parseArgs argv)"
  shows "(\<exists>cs. commands (snd (main sh cwd ci argv w)) = commands w @ cs \<and>
               (\<forall>tag. publishCmd tag \<notin> set cs)) \<and>
         (\<forall>fs1 out fs2.
            copyPackagesToBuild cwd (files w) = (Inr (), fs1) \<longrightarrow>
            sh (bumpCmd (version (parseArgs argv))) fs1 = ExecOk out fs2 \<longrightarrow>
            (\<exists>tag. fst (determineDistTag sh (version (parseArgs argv)) (w\<lparr>files := fs2\<rparr>)) = Inr tag \<and>
                   fst (main sh cwd ci argv w) = Exited 0 \<and>
                   console (snd (main sh cwd ci argv w)) =
                     console w @ [''Copying packages to build directory...'',
                       ''Bumping versions to '' @ version (parseArgs argv) @ ''...'',
                       ''Publishing with tag: '' @ tag,
                       ''[DRY RUN] Would execute: '' @ publishCmd tag] \<and>
                   commands (snd (main sh cwd ci argv w)) =
                     commands w @ bumpCmd (version (parseArgs argv)) #
                       (if spec_hasPrereleaseLabel (version (parseArgs argv)) then []
                        else [npmViewCmd])))"
proof (intro conjI allI impI)
  from publishToNpm_dry_run_commands [OF assms(2), of sh cwd w]
  obtain cs where "commands (snd (publishToNpm sh cwd (parseArgs argv) w)) = commands w @ cs"
    and "set cs \<subseteq> {bumpCmd (version (parseArgs argv)), npmViewCmd}"
    by blast
  moreover from this have "publishCmd tag \<notin> set cs" for tag
    using publishCmd_other [of tag] by auto
  ultimately show "\<exists>cs. commands (snd (main sh cwd ci argv w)) = commands w @ cs \<and>
      (\<forall>tag. publishCmd tag \<notin> set cs)"
    using assms(1) by (auto simp: main_publish)
next
  fix fs1 out fs2
  assume "copyPackagesToBuild cwd (files w) = (Inr (), fs1)"
    and "sh (bumpCmd (version (parseArgs argv))) fs1 = ExecOk out fs2"
  from publishToNpm_bumped [where sh = sh, OF this] assms
  show "\<exists>tag. fst (determineDistTag sh (version (parseArgs argv)) (w\<lparr>files := fs2\<rparr>)) = Inr tag \<and>
          fst (main sh cwd ci argv w) = Exited 0 \<and>
          console (snd (main sh cwd ci argv w)) =
            console w @ [''Copying packages to build directory...'',
              ''Bumping versions to '' @ version (parseArgs argv) @ ''...'',
              ''Publishing with tag: '' @ tag,
              ''[DRY RUN] Would execute: '' @ publishCmd tag] \<and>
          commands (snd (main sh cwd ci argv w)) =
            commands w @ bumpCmd (version (parseArgs argv)) #
              (if spec_hasPrereleaseLabel (version (parseArgs argv)) then []
               else [npmViewCmd])"
    by (auto simp: main_publish)
qed

theorem dry_run_prints_publish_command_witness:
  "truthy (Some ''true'') \<and>
   dryRun (parseArgs [''node'', ''release.ts'', ''1.2.0'', ''--dry-run'']) \<and>
   main (\<lambda>cmd fs. ExecOk ''2.0.0'' fs) ''/repo'' (Some ''true'')
        [''node'', ''release.ts'', ''1.2.0'', ''--dry-run'']
        \<lparr>files = [(''packages'', Dir [])], console = [], commands = []\<rparr>
   = (Exited 0,
      \<lparr>files = [(''packages'', Dir []), (''build'', Dir [])],
       console = [''Copying packages to build directory...'', ''Bumping versions to 1.2.0...'',
         ''Publishing with tag: previous'',
         ''[DRY RUN] Would execute: pnpm nx release publish --registry=https://registry.npmjs.org --tag=previous''],
       commands = [''pnpm nx release version --specifier 1.2.0'',
         ''npm view @juristr/tusky-design version 2>/dev/null'']\<rparr>)"
proof -
  have h1: "truthy (Some ''true'')"
    by (simp add: truthy_def)
  have h2: "dryRun (parseArgs [''node'', ''release.ts'', ''1.2.0'', ''--dry-run''])"
    by (simp add: parseArgs_def parseArg_def startsWith_def)
  note dry_run_prints_publish_command [OF h1 h2,
      of "\<lambda>cmd fs. ExecOk ''2.0.0'' fs" "''/repo''"
         "\<lparr>files = [(''packages'', Dir [])], console = [], commands = []\<rparr>"]
  then show ?thesis
    using h1 h2 by (simp add: run_eval number_eval)
qed

text \<open>
  C5 as stated fails when the version bump fails: the exception of \<open>execSync\<close> ends the
  run before anything about the publish command is printed, and the status is not 0.
\<close>

theorem dry_run_bump_failure:
  "truthy (Some ''true'') \<and>
   dryRun (parseArgs [''node'', ''release.ts'', ''1.2.0'', ''--dry-run'']) \<and>
   main (\<lambda>cmd fs. ExecFailed fs) ''/repo'' (Some ''true'')
        [''node'', ''release.ts'', ''1.2.0'', ''--dry-run'']
        \<lparr>files = [(''packages'', Dir [])], console = [], commands = []\<rparr>
   = (Threw (ExternalOperationFailure ''pnpm nx release version --specifier 1.2.0''),
      \<lparr>files = [(''packages'', Dir []), (''build'', Dir [])],
       console = [''Copying packages to build directory...'', ''Bumping versions to 1.2.0...''],
       commands = [''pnpm nx release version --specifier 1.2.0'']\<rparr>)"
  by (simp add: run_eval)

text \<open>
  C9. On the publish path a relative keyword is not rejected: the run is \<open>publishToNpm\<close>,
  it never ends with \<open>InvalidVersionSpecifier\<close>, and when the copy and the bump succeed and
  \<open>dryRun\<close> is off, the commands run are the version bump with the keyword as specifier,
  the registry query, and the publish command with the tag \<open>latest\<close>.
\<close>

theorem publish_path_accepts_keyword:
  assumes "truthy ci"
    and "version (parseArgs argv) \<in> {''major'', ''minor'', ''patch'', ''premajor'', ''preminor'',
           ''prepatch'', ''prerelease''}"
  shows "main sh cwd ci argv w = publishToNpm sh cwd (parseArgs argv) w \<and>
         fst (main sh cwd ci argv w) \<noteq> Threw InvalidVersionSpecifier \<and>
         (\<forall>fs1 out fs2.
            copyPackagesToBuild cwd (files w) = (Inr (), fs1) \<longrightarrow>
            sh (bumpCmd (version (parseArgs argv))) fs1 = ExecOk out fs2 \<longrightarrow>
            \<not> dryRun (parseArgs argv) \<longrightarrow>
            commands (snd (main sh cwd ci argv w)) =
              commands w @ [''pnpm nx release version --specifier '' @ version (parseArgs argv),
                            npmViewCmd, publishCmd ''latest''])"
proof (intro conjI allI impI)
  show m: "main sh cwd ci argv w = publishToNpm sh cwd (parseArgs argv) w"
    using assms(1) by (rule main_publish)
  show "fst (main sh cwd ci argv w) \<noteq> Threw InvalidVersionSpecifier"
    unfolding m by (rule publishToNpm_not_rejected)
next
  fix fs1 out fs2
  let ?v = "version (parseArgs argv)"
  assume copy: "copyPackagesToBuild cwd (files w) = (Inr (), fs1)"
    and bump: "sh (bumpCmd ?v) fs1 = ExecOk out fs2"
    and wet: "\<not> dryRun (parseArgs argv)"
  have latest: "fst (determineDistTag sh ?v (w\<lparr>files := fs2\<rparr>)) = Inr ''latest''"
    using keyword_not_numeric [OF assms(2)] by (rule determineDistTag_NaN)
  from publishToNpm_bumped [where sh = sh, OF copy bump] wet latest
    keyword_not_numeric(1) [OF assms(2)]
  have "commands (snd (publishToNpm sh cwd (parseArgs argv) w)) =
          commands w @ [bumpCmd ?v, npmViewCmd, publishCmd ''latest'']"
    by auto
  then show "commands (snd (main sh cwd ci argv w)) =
      commands w @ [''pnpm nx release version --specifier '' @ ?v, npmViewCmd,
        publishCmd ''latest'']"
    using assms(1) by (simp add: main_publish bumpCmd_def)
qed

theorem publish_path_accepts_keyword_witness:
  "truthy (Some ''true'') \<and>
   version (parseArgs [''node'', ''release.ts'']) = ''minor'' \<and>
   main (\<lambda>cmd fs. ExecOk ''2.0.0'' fs) ''/repo'' (Some ''true'') [''node'', ''release.ts'']
        \<lparr>files = [(''packages'', Dir [])], console = [], commands = []\<rparr>
   = (Completed,
      \<lparr>files = [(''packages'', Dir []), (''build'', Dir [])],
       console = [''Copying packages to build directory...'', ''Bumping versions to minor...'',
         ''Publishing with tag: latest''],
       commands = [''pnpm nx release version --specifier minor'',
         ''npm view @juristr/tusky-design version 2>/dev/null'',
         ''pnpm nx release publish --registry=https://registry.npmjs.org --tag=latest'']\<rparr>)"
proof -
  have h1: "truthy (Some ''true'')"
    by (simp add: truthy_def)
  have v: "version (parseArgs [''node'', ''release.ts'']) = ''minor''"
    by (simp add: parseArgs_def)
  have h2: "version (parseArgs [''node'', ''release.ts'']) \<in> {''major'', ''minor'', ''patch'',
      ''premajor'', ''preminor'', ''prepatch'', ''prerelease''}"
    by (simp add: v)
  note publish_path_accepts_keyword [OF h1 h2,
      of "\<lambda>cmd fs. ExecOk ''2.0.0'' fs" "''/repo''"
         "\<lparr>files = [(''packages'', Dir [])], console = [], commands = []\<rparr>"]
  then show ?thesis
    using h1 v by (simp add: run_eval number_eval)
qed

end
